theory Spec2Isabelle
  imports Complex_Main "HOL-Library.Log_Nat"
begin

section \<open>Python values, exceptions and text\<close>

text \<open>
  The exception classes that the tablerow tag can meet: Python's built-in ones, and
  \<open>LiquidTypeError\<close> of \<open>liquid/exceptions.py\<close>. \<open>KeyError\<close> carries the key it was
  raised with.
\<close>

datatype py_error =
    ZeroDivisionError
  | OverflowError
  | ValueError
  | AssertionError
  | KeyError string
  | AttributeError string
  | LiquidTypeError

text \<open>
  A Python \<open>float\<close> (IEEE binary64) that is finite: the value \<open>m * 2 ^ e\<close>.
\<close>

datatype py_float = PyFloat (significand: int) (exponent: int)

text \<open>The values a column-count expression can evaluate to.\<close>

datatype py_value =
    PyInt int
  | PyBool bool
  | PyFloatV py_float
  | PyStr string
  | PyNone

text \<open>
  \<open>isinstance(v, int)\<close>: true of integers and of booleans (\<open>bool\<close> is a subclass of
  \<open>int\<close>, with \<open>True == 1\<close> and \<open>False == 0\<close>).
\<close>

fun as_int :: "py_value \<Rightarrow> int option" where
  "as_int (PyInt i) = Some i"
| "as_int (PyBool b) = Some (if b then 1 else 0)"
| "as_int (PyFloatV f) = None"
| "as_int (PyStr s) = None"
| "as_int PyNone = None"

text \<open>\<open>str(n)\<close> for an integer, as an f-string formats it: decimal, with a sign.\<close>

definition digit_char :: "nat \<Rightarrow> char" where
  "digit_char d = char_of (48 + d)"

function str_nat :: "nat \<Rightarrow> string" where
  "str_nat n = (if n < 10 then [digit_char n] else str_nat (n div 10) @ [digit_char (n mod 10)])"
  by pat_completeness auto
termination
  by (relation "measure (\<lambda>n. n)") auto

declare str_nat.simps [simp del]

definition str_int :: "int \<Rightarrow> string" where
  "str_int i = (if i < 0 then CHR ''-'' # str_nat (nat (- i)) else str_nat (nat i))"

section \<open>True division of integers and \<open>math.ceil\<close>\<close>

text \<open>
  \<open>a / b\<close> on Python integers is the exact quotient rounded once to the nearest binary64
  value, ties to the even significand. It raises \<open>ZeroDivisionError\<close> for \<open>b = 0\<close> and
  \<open>OverflowError\<close> when the rounded magnitude reaches \<open>2 ^ 1024\<close>; a quotient too small
  for the subnormal range rounds to zero.
\<close>

definition round_half_even :: "int \<Rightarrow> int \<Rightarrow> int" where
  "round_half_even n d =
     (let q = n div d; r = n mod d
      in if 2 * r < d then q
         else if d < 2 * r then q + 1
         else if even q then q else q + 1)"

text \<open>For positive \<open>x\<close> and \<open>y\<close>: the integer \<open>k\<close> with \<open>2 ^ k \<le> x / y < 2 ^ (k + 1)\<close>.\<close>

definition floor_log2_ratio :: "int \<Rightarrow> int \<Rightarrow> int" where
  "floor_log2_ratio x y =
     (let d = bitlen x - bitlen y
      in if y * 2 ^ nat d \<le> x * 2 ^ nat (- d) then d else d - 1)"

text \<open>
  The exponent of the quotient of positive \<open>x\<close> and \<open>y\<close>: the one that gives a
  significand of 53 bits, or \<open>- 1074\<close> in the subnormal range.
\<close>

definition float_exp :: "int \<Rightarrow> int \<Rightarrow> int" where
  "float_exp x y = max (floor_log2_ratio x y - 52) (- 1074)"

definition int_truediv :: "int \<Rightarrow> int \<Rightarrow> py_error + py_float" where
  "int_truediv a b =
     (if b = 0 then Inl ZeroDivisionError
      else if a = 0 then Inr (PyFloat 0 0)
      else
        let x = \<bar>a\<bar>; y = \<bar>b\<bar>;
            e = float_exp x y;
            m = round_half_even (x * 2 ^ nat (- e)) (y * 2 ^ nat e)
        in if 2 ^ 1024 \<le> m * 2 ^ nat e then Inl OverflowError
           else Inr (PyFloat (sgn a * sgn b * m) e))"

text \<open>\<open>math.ceil\<close> of a finite float: the least integer not below \<open>m * 2 ^ e\<close>.\<close>

definition math_ceil :: "py_float \<Rightarrow> int" where
  "math_ceil f =
     (if 0 \<le> exponent f then significand f * 2 ^ nat (exponent f)
      else - ((- significand f) div 2 ^ nat (- exponent f)))"

section \<open>\<open>TableRow\<close>: the helper variables of one tablerow loop\<close>

text \<open>
  The slots of class \<open>TableRow\<close>, in the order of \<open>__slots__\<close>. \<open>item\<close> is \<open>None\<close> until the
  first step. \<open>length\<close> and \<open>last\<close> carry a suffix, being names of list functions.
\<close>

record 'a TableRow =
  name :: string
  length_tr :: int
  ncols :: int
  item :: "'a option"
  first :: bool
  last_tr :: bool
  index :: int
  index0 :: int
  rindex :: int
  rindex0 :: int
  col :: int
  col0 :: int
  col_first :: bool
  col_last :: bool
  keys_tr :: "string list"
  row :: int
  nrows :: int

definition TableRow_keys :: "string list" where
  "TableRow_keys =
     [''length'', ''index'', ''index0'', ''rindex'', ''rindex0'', ''first'', ''last'',
      ''col'', ''col0'', ''col_first'', ''col_last'']"

text \<open>
  \<open>TableRow.__init__\<close>. The only statement that can raise is
  \<open>self.nrows = math.ceil(self.length / self.ncols)\<close>; an exception there leaves no object.
\<close>

definition TableRow_init :: "string \<Rightarrow> int \<Rightarrow> int \<Rightarrow> py_error + 'a TableRow" where
  "TableRow_init nm len nc =
     (case int_truediv len nc of
        Inl err \<Rightarrow> Inl err
      | Inr q \<Rightarrow>
          Inr \<lparr> name = nm, length_tr = len, ncols = nc, item = None,
                first = False, last_tr = False,
                index = 0, index0 = - 1, rindex = len + 1, rindex0 = len,
                col = 0, col0 = - 1, col_first = True, col_last = False,
                keys_tr = TableRow_keys, row = 0, nrows = math_ceil q \<rparr>)"

text \<open>
  \<open>TableRow.step\<close>. The object is mutated in place, so the result is the object after the
  call together with the exception raised, if any: \<open>index0 % ncols\<close> raises
  \<open>ZeroDivisionError\<close> for \<open>ncols = 0\<close>, after the counters and \<open>first\<close>, \<open>last\<close> have
  been assigned. Python's \<open>%\<close> takes the sign of the divisor, as \<open>mod\<close> on \<open>int\<close> does.
\<close>

definition TableRow_step :: "'a TableRow \<Rightarrow> 'a \<Rightarrow> 'a TableRow \<times> py_error option" where
  "TableRow_step tr x =
     (let t1 = tr\<lparr> item := Some x,
                   index := index tr + 1, index0 := index0 tr + 1,
                   rindex := rindex tr - 1, rindex0 := rindex0 tr - 1 \<rparr>;
          t2 = t1\<lparr> first := (index0 t1 = 0), last_tr := (rindex0 t1 = 0) \<rparr>
      in if ncols t2 = 0 then (t2, Some ZeroDivisionError)
         else
           let t3 = t2\<lparr> col0 := index0 t2 mod ncols t2 \<rparr>;
               t4 = t3\<lparr> col := col0 t3 + 1 \<rparr>;
               t5 = t4\<lparr> col_first := (col t4 = 1), col_last := (col t4 = ncols t4) \<rparr>
           in (if col t5 = 1 then t5\<lparr> row := row t5 + 1 \<rparr> else t5, None))"

text \<open>Calling \<open>step\<close> once per element of a list, stopping at the first exception.\<close>

fun TableRow_steps :: "'a TableRow \<Rightarrow> 'a list \<Rightarrow> 'a TableRow \<times> py_error option" where
  "TableRow_steps tr [] = (tr, None)"
| "TableRow_steps tr (x # xs) =
     (case TableRow_step tr x of
        (tr', None) \<Rightarrow> TableRow_steps tr' xs
      | (tr', Some err) \<Rightarrow> (tr', Some err))"

text \<open>
  \<open>TableRow.__getitem__\<close>: \<open>getattr\<close> for a key that is in \<open>self.keys\<close>, \<open>KeyError\<close>
  otherwise. \<open>getattr\<close> finds the seventeen slots and raises \<open>AttributeError\<close> for any other
  name.
\<close>

datatype 'a attr_value =
    IntV int
  | BoolV bool
  | StrV string
  | ItemV "'a option"
  | KeysV "string list"

definition TableRow_getattr :: "'a TableRow \<Rightarrow> string \<Rightarrow> 'a attr_value option" where
  "TableRow_getattr tr key =
     (if key = ''name'' then Some (StrV (name tr))
      else if key = ''length'' then Some (IntV (length_tr tr))
      else if key = ''ncols'' then Some (IntV (ncols tr))
      else if key = ''item'' then Some (ItemV (item tr))
      else if key = ''first'' then Some (BoolV (first tr))
      else if key = ''last'' then Some (BoolV (last_tr tr))
      else if key = ''index'' then Some (IntV (index tr))
      else if key = ''index0'' then Some (IntV (index0 tr))
      else if key = ''rindex'' then Some (IntV (rindex tr))
      else if key = ''rindex0'' then Some (IntV (rindex0 tr))
      else if key = ''col'' then Some (IntV (col tr))
      else if key = ''col0'' then Some (IntV (col0 tr))
      else if key = ''col_first'' then Some (BoolV (col_first tr))
      else if key = ''col_last'' then Some (BoolV (col_last tr))
      else if key = ''keys'' then Some (KeysV (keys_tr tr))
      else if key = ''row'' then Some (IntV (row tr))
      else if key = ''nrows'' then Some (IntV (nrows tr))
      else None)"

definition TableRow_getitem :: "'a TableRow \<Rightarrow> string \<Rightarrow> py_error + 'a attr_value" where
  "TableRow_getitem tr key =
     (if key \<in> set (keys_tr tr)
      then (case TableRow_getattr tr key of
              Some v \<Rightarrow> Inr v
            | None \<Rightarrow> Inl (AttributeError key))
      else Inl (KeyError key))"

section \<open>\<open>TableRowDrop\<close>: the namespace of the loop\<close>

text \<open>
  The drop holds its \<open>TableRow\<close>, the name of the loop variable (slot \<open>name\<close>) and the
  list \<open>_exit\<close> of closing markup that is still to be written.
\<close>

record 'a TableRowDrop =
  tablerow :: "'a TableRow"
  name_drop :: string
  exit_drop :: "string list"

definition TableRowDrop_init :: "string \<Rightarrow> int \<Rightarrow> int \<Rightarrow> py_error + 'a TableRowDrop" where
  "TableRowDrop_init nm len nc =
     (case TableRow_init nm len nc of
        Inl err \<Rightarrow> Inl err
      | Inr tr \<Rightarrow> Inr \<lparr> tablerow = tr, name_drop = nm, exit_drop = [] \<rparr>)"

definition TableRowDrop_contains :: "'a TableRowDrop \<Rightarrow> string \<Rightarrow> bool" where
  "TableRowDrop_contains d key = (key = ''tablerowloop'' \<or> key = name_drop d)"

datatype 'a drop_value =
    TableRowV "'a TableRow"
  | ItemValue "'a option"

definition TableRowDrop_getitem :: "'a TableRowDrop \<Rightarrow> string \<Rightarrow> py_error + 'a drop_value" where
  "TableRowDrop_getitem d key =
     (if key = ''tablerowloop'' then Inr (TableRowV (tablerow d))
      else if key = name_drop d then Inr (ItemValue (item (tablerow d)))
      else Inl (KeyError key))"

definition TableRowDrop_step :: "'a TableRowDrop \<Rightarrow> 'a \<Rightarrow> 'a TableRowDrop \<times> py_error option" where
  "TableRowDrop_step d x =
     (case TableRow_step (tablerow d) x of (tr, err) \<Rightarrow> (d\<lparr> tablerow := tr \<rparr>, err))"

text \<open>The two f-strings that open a row and a cell.\<close>

definition row_open :: "int \<Rightarrow> string" where
  \<open>row_open n = ''<tr class="row'' @ str_int n @ ''">''\<close>

definition col_open :: "int \<Rightarrow> string" where
  \<open>col_open n = ''<td class="col'' @ str_int n @ ''">''\<close>

text \<open>
  \<open>empty_exit_buffer\<close>: \<open>list.pop()\<close> takes the last entry; the \<open>IndexError\<close> of an empty
  list is caught and nothing is written. The buffer is the text written so far.
\<close>

definition empty_exit_buffer :: "'a TableRowDrop \<Rightarrow> string \<Rightarrow> 'a TableRowDrop \<times> string" where
  "empty_exit_buffer d buffer =
     (if exit_drop d = [] then (d, buffer)
      else (d\<lparr> exit_drop := butlast (exit_drop d) \<rparr>, buffer @ last (exit_drop d)))"

definition step_write ::
  "'a TableRowDrop \<Rightarrow> 'a \<Rightarrow> string \<Rightarrow> ('a TableRowDrop \<times> string) \<times> py_error option" where
  "step_write d x buffer =
     (case empty_exit_buffer d buffer of
        (d1, b1) \<Rightarrow>
          (case TableRowDrop_step d1 x of
             (d2, Some err) \<Rightarrow> ((d2, b1), Some err)
           | (d2, None) \<Rightarrow>
               let tr = tablerow d2;
                   b2 = (if col tr = 1 \<and> row tr \<le> nrows tr then b1 @ row_open (row tr) else b1);
                   b3 = b2 @ col_open (col tr);
                   closing = (if col tr = ncols tr \<or> index tr = length_tr tr
                              then ''</td></tr>'' else ''</td>'')
               in ((d2\<lparr> exit_drop := exit_drop d2 @ [closing] \<rparr>, b3), None)))"

section \<open>\<open>TablerowNode.render_to_output\<close>\<close>

text \<open>
  \<open>grouper(iterable, n)\<close>, consumed by \<open>tuple\<close>: \<open>islice\<close> raises \<open>ValueError\<close> unless
  \<open>0 \<le> n \<le> sys.maxsize\<close> (here that of a 64-bit build), and the first empty chunk ends the
  iteration, so \<open>n = 0\<close> gives no chunk at all.
\<close>

definition sys_maxsize :: int where
  "sys_maxsize = 2 ^ 63 - 1"

function chunks :: "nat \<Rightarrow> 'a list \<Rightarrow> 'a list list" where
  "chunks n xs = (if n = 0 \<or> xs = [] then [] else take n xs # chunks n (drop n xs))"
  by pat_completeness auto
termination
  by (relation "measure (\<lambda>(n, xs). length xs)") auto

declare chunks.simps [simp del]

definition grouper :: "'a list \<Rightarrow> int \<Rightarrow> py_error + 'a list list" where
  "grouper iterable n =
     (if n < 0 \<or> sys_maxsize < n then Inl ValueError
      else Inr (chunks (nat n) iterable))"

text \<open>
  The child block is rendered against the context extended with the drop: it reads the drop,
  writes some text, and may raise. The inner loop of \<open>render_to_output\<close> runs over one row,
  \<open>j\<close> counting its cells; the outer loop runs over the rows, \<open>i\<close> counting them. Both stop
  at the first exception, with the text written until then.
\<close>

type_synonym 'a block = "'a TableRowDrop \<Rightarrow> string \<times> py_error option"

fun render_cells ::
  "'a block \<Rightarrow> 'a TableRowDrop \<Rightarrow> nat \<Rightarrow> 'a list \<Rightarrow> string
     \<Rightarrow> ('a TableRowDrop \<times> string) \<times> py_error option" where
  "render_cells block d j [] buffer = ((d, buffer), None)"
| "render_cells block d j (data # rest) buffer =
     (case TableRowDrop_step d data of
        (d1, Some err) \<Rightarrow> ((d1, buffer), Some err)
      | (d1, None) \<Rightarrow>
          (case block d1 of
             (out, Some err) \<Rightarrow> ((d1, buffer @ col_open (int j + 1) @ out), Some err)
           | (out, None) \<Rightarrow>
               render_cells block d1 (j + 1) rest
                 (buffer @ col_open (int j + 1) @ out @ ''</td>'')))"

fun render_rows ::
  "'a block \<Rightarrow> 'a TableRowDrop \<Rightarrow> nat \<Rightarrow> 'a list list \<Rightarrow> string
     \<Rightarrow> ('a TableRowDrop \<times> string) \<times> py_error option" where
  "render_rows block d i [] buffer = ((d, buffer), None)"
| "render_rows block d i (r # rest) buffer =
     (case render_cells block d 0 r (buffer @ row_open (int i + 1)) of
        ((d1, b1), Some err) \<Rightarrow> ((d1, b1), Some err)
      | ((d1, b1), None) \<Rightarrow> render_rows block d1 (i + 1) rest (b1 @ ''</tr>''))"

text \<open>
  \<open>render_to_output\<close>, given the evaluated loop items and the evaluated column count, if the
  expression has one. The result is the buffer and the exception that ended the rendering,
  if any.
\<close>

definition render_to_output ::
  "string \<Rightarrow> 'a list \<Rightarrow> py_value option \<Rightarrow> 'a block \<Rightarrow> string \<Rightarrow> string \<times> py_error option" where
  "render_to_output nm loop_items cols_value block buffer =
     (case (case cols_value of
              Some v \<Rightarrow>
                (case as_int v of
                   None \<Rightarrow> Inl AssertionError
                 | Some cols \<Rightarrow>
                     (case grouper loop_items cols of
                        Inl err \<Rightarrow> Inl err
                      | Inr loop_iter \<Rightarrow> Inr (cols, loop_iter)))
            | None \<Rightarrow> Inr (1, [loop_items])) of
        Inl err \<Rightarrow> (buffer, Some err)
      | Inr (cols, loop_iter) \<Rightarrow>
          (case TableRowDrop_init nm (int (length loop_items)) cols of
             Inl err \<Rightarrow> (buffer, Some err)
           | Inr d \<Rightarrow>
               (case render_rows block d 0 loop_iter buffer of
                  ((d1, b1), err) \<Rightarrow> (b1, err))))"

text \<open>The drop after its \<open>TableRow\<close> has stepped through the items \<open>xs\<close>.\<close>

definition stepped :: "'a TableRowDrop \<Rightarrow> 'a list \<Rightarrow> 'a TableRowDrop" where
  "stepped d xs = d\<lparr> tablerow := fst (TableRow_steps (tablerow d) xs) \<rparr>"

section \<open>The rounded quotient\<close>

text \<open>
  What the claims need of \<open>length / ncols\<close>: it does not overflow while the exact quotient
  is below \<open>2 ^ 1023\<close>, and its ceiling is the exact one for a dividend below \<open>2 ^ 53\<close>.
\<close>

lemma round_half_even_le: "0 < d \<Longrightarrow> n \<le> N * d \<Longrightarrow> round_half_even n d \<le> N"
proof -
  assume d: "0 < d" and n: "n \<le> N * d"
  have q: "n div d \<le> N" using zdiv_mono1 [OF n d] d by simp
  show ?thesis
  proof (cases "n div d = N")
    case True
    have "n mod d = n - N * d" using True by (simp add: minus_div_mult_eq_mod [symmetric])
    with n d have "n mod d \<le> 0" by simp
    moreover have "0 \<le> n mod d" using d by simp
    ultimately have "n mod d = 0" by simp
    with d True show ?thesis by (simp add: round_half_even_def Let_def)
  next
    case False
    with q have "n div d + 1 \<le> N" by simp
    then show ?thesis by (simp add: round_half_even_def Let_def)
  qed
qed

lemma round_half_even_greater: "0 < d \<Longrightarrow> (2 * N + 1) * d < 2 * n \<Longrightarrow> N < round_half_even n d"
proof -
  assume d: "0 < d" and n: "(2 * N + 1) * d < 2 * n"
  have "N * d \<le> n" using d n by (simp add: algebra_simps)
  then have q: "N \<le> n div d" using zdiv_mono1 [of "N * d" n d] d by simp
  show ?thesis
  proof (cases "n div d = N")
    case True
    have "n mod d = n - N * d" using True by (simp add: minus_div_mult_eq_mod [symmetric])
    with n have "d < 2 * (n mod d)" by (simp add: algebra_simps)
    with d True show ?thesis by (simp add: round_half_even_def Let_def)
  next
    case False
    with q have "N < n div d" by simp
    then show ?thesis by (simp add: round_half_even_def Let_def)
  qed
qed



lemma scale_ratio:
  assumes "0 < y"
  shows "real_of_int (x * 2 ^ nat (- e)) / real_of_int (y * 2 ^ nat e) = (real_of_int x / real_of_int y) * 2 powi (- e)"
proof (cases "0 \<le> e")
  case True
  then show ?thesis by (simp add: power_int_def field_simps)
next
  case False
  then show ?thesis by (simp add: power_int_def field_simps)
qed

lemma bitlen_powi:
  assumes "0 < x"
  shows "2 powi (bitlen x - 1) \<le> real_of_int x" and "real_of_int x < 2 powi (bitlen x)"
proof -
  from assms have b: "1 \<le> bitlen x" by (auto simp: bitlen_alt_def)
  from bitlen_bounds [OF assms] have lo: "2 ^ nat (bitlen x - 1) \<le> x" and hi: "x < 2 ^ nat (bitlen x)"
    by simp_all
  from lo have "real_of_int (2 ^ nat (bitlen x - 1)) \<le> real_of_int x" by (rule of_int_le_iff [THEN iffD2])
  with b show "2 powi (bitlen x - 1) \<le> real_of_int x" by (simp add: power_int_def)
  from hi have "real_of_int x < real_of_int (2 ^ nat (bitlen x))" by (rule of_int_less_iff [THEN iffD2])
  with b show "real_of_int x < 2 powi (bitlen x)" by (simp add: power_int_def)
qed

lemma ratio_window:
  assumes "0 < x" "0 < y"
  shows "2 powi (bitlen x - bitlen y - 1) < real_of_int x / real_of_int y"
    and "real_of_int x / real_of_int y < 2 powi (bitlen x - bitlen y + 1)"
proof -
  let ?p = "bitlen x" and ?q = "bitlen y"
  have y0: "0 < real_of_int y" using assms by simp
  have "2 powi (?p - ?q - 1) * real_of_int y < 2 powi (?p - ?q - 1) * 2 powi ?q"
    using bitlen_powi(2) [OF assms(2)] by (intro mult_strict_left_mono) simp_all
  also have "\<dots> = 2 powi (?p - 1)" by (simp flip: power_int_add)
  also have "\<dots> \<le> real_of_int x" using bitlen_powi(1) [OF assms(1)] .
  finally show "2 powi (?p - ?q - 1) < real_of_int x / real_of_int y"
    using y0 by (simp add: pos_less_divide_eq)
  have "real_of_int x < 2 powi ?p" using bitlen_powi(2) [OF assms(1)] .
  also have "\<dots> = 2 powi (?p - ?q + 1) * 2 powi (?q - 1)" by (simp flip: power_int_add)
  also have "\<dots> \<le> 2 powi (?p - ?q + 1) * real_of_int y"
    using bitlen_powi(1) [OF assms(2)] by (intro mult_left_mono) simp_all
  finally show "real_of_int x / real_of_int y < 2 powi (?p - ?q + 1)"
    using y0 by (simp add: pos_divide_less_eq)
qed

lemma ratio_test:
  assumes "0 < y"
  shows "(y * 2 ^ nat d \<le> x * 2 ^ nat (- d)) \<longleftrightarrow> (2 powi d \<le> real_of_int x / real_of_int y)"
proof -
  have y0: "0 < real_of_int y" using assms by simp
  have "(y * 2 ^ nat d \<le> x * 2 ^ nat (- d)) \<longleftrightarrow>
        (real_of_int (y * 2 ^ nat d) \<le> real_of_int (x * 2 ^ nat (- d)))"
    by (simp only: of_int_le_iff)
  also have "\<dots> \<longleftrightarrow> (2 powi d \<le> real_of_int x / real_of_int y)"
  proof (cases "0 \<le> d")
    case True
    then show ?thesis using y0 by (simp add: power_int_def field_simps)
  next
    case False
    then show ?thesis using y0 by (simp add: power_int_def field_simps)
  qed
  finally show ?thesis .
qed

lemma floor_log2_ratio_lower:
  assumes "0 < x" "0 < y"
  shows "2 powi (floor_log2_ratio x y) \<le> real_of_int x / real_of_int y"
  using ratio_window(1) [OF assms] ratio_test [OF assms(2), of "bitlen x - bitlen y" x]
  by (simp add: floor_log2_ratio_def Let_def)

lemma floor_log2_ratio_upper:
  assumes "0 < x" "0 < y"
  shows "real_of_int x / real_of_int y < 2 powi (floor_log2_ratio x y + 1)"
  using ratio_window(2) [OF assms] ratio_test [OF assms(2), of "bitlen x - bitlen y" x]
  by (simp add: floor_log2_ratio_def Let_def)


lemma int_le_ratio:
  assumes "0 < d" "real_of_int n / real_of_int d \<le> real_of_int N"
  shows "n \<le> N * d"
proof -
  from assms have "real_of_int n \<le> real_of_int N * real_of_int d"
    by (simp add: pos_divide_le_eq)
  then have "real_of_int n \<le> real_of_int (N * d)" by simp
  then show ?thesis by (simp only: of_int_le_iff)
qed

lemma significand_bound:
  assumes "0 < x" "0 < y"
  shows "round_half_even (x * 2 ^ nat (- float_exp x y)) (y * 2 ^ nat (float_exp x y)) \<le> 2 ^ 53"
proof -
  let ?e = "float_exp x y" and ?k = "floor_log2_ratio x y"
  have d: "0 < y * 2 ^ nat ?e" using assms by simp
  have le: "?k + 1 - ?e \<le> 53" by (simp add: float_exp_def)
  have "real_of_int (x * 2 ^ nat (- ?e)) / real_of_int (y * 2 ^ nat ?e)
          = (real_of_int x / real_of_int y) * 2 powi (- ?e)"
    by (rule scale_ratio [OF assms(2)])
  also have "\<dots> \<le> 2 powi (?k + 1) * 2 powi (- ?e)"
    using floor_log2_ratio_upper [OF assms] by (intro mult_right_mono) simp_all
  also have "\<dots> = 2 powi (?k + 1 - ?e)" by (simp flip: power_int_add)
  also have "\<dots> \<le> 2 powi 53" using le by (intro power_int_increasing) simp_all
  finally have "real_of_int (x * 2 ^ nat (- ?e)) / real_of_int (y * 2 ^ nat ?e) \<le> real_of_int (2 ^ 53)"
    by simp
  from int_le_ratio [OF d this] show ?thesis by (intro round_half_even_le [OF d])
qed


lemma floor_log2_ratio_less:
  assumes "0 < x" "0 < y" "x < 2 ^ K * y"
  shows "floor_log2_ratio x y < int K"
proof -
  have "2 powi (floor_log2_ratio x y) \<le> real_of_int x / real_of_int y"
    by (rule floor_log2_ratio_lower [OF assms(1,2)])
  also have "real_of_int x < real_of_int (2 ^ K * y)" using assms(3) by (simp only: of_int_less_iff)
  then have "real_of_int x / real_of_int y < 2 powi (int K)"
    using assms(2) by (simp add: pos_divide_less_eq)
  finally show ?thesis
    by (intro power_int_le_imp_less_exp [of "2::real"]) simp_all
qed

lemma round_half_even_nonneg:
  assumes "0 < d" "0 \<le> n"
  shows "0 \<le> round_half_even n d"
proof -
  have "0 \<le> n div d" using assms by (simp add: pos_imp_zdiv_nonneg_iff)
  then show ?thesis by (simp add: round_half_even_def Let_def)
qed

lemma int_truediv_finite:
  assumes "a \<noteq> 0" "b \<noteq> 0" "\<bar>a\<bar> < 2 ^ 1023 * \<bar>b\<bar>"
  shows "int_truediv a b =
           Inr (PyFloat (sgn a * sgn b *
                  round_half_even (\<bar>a\<bar> * 2 ^ nat (- float_exp \<bar>a\<bar> \<bar>b\<bar>))
                                  (\<bar>b\<bar> * 2 ^ nat (float_exp \<bar>a\<bar> \<bar>b\<bar>)))
                (float_exp \<bar>a\<bar> \<bar>b\<bar>))"
proof -
  let ?x = "\<bar>a\<bar>" and ?y = "\<bar>b\<bar>"
  let ?e = "float_exp ?x ?y"
  let ?m = "round_half_even (?x * 2 ^ nat (- ?e)) (?y * 2 ^ nat ?e)"
  have x: "0 < ?x" and y: "0 < ?y" using assms by simp_all
  have "floor_log2_ratio ?x ?y < int 1023"
    using assms(3) by (intro floor_log2_ratio_less [OF x y]) simp
  then have e: "nat ?e \<le> 970" by (simp add: float_exp_def)
  have m: "?m \<le> 2 ^ 53" by (rule significand_bound [OF x y])
  have "(2::int) ^ nat ?e \<le> 2 ^ 970" using e by (intro power_increasing) simp_all
  with m have "?m * 2 ^ nat ?e \<le> 2 ^ 53 * 2 ^ 970"
    by (intro mult_mono) simp_all
  also have "\<dots> < (2::int) ^ 1024" by simp
  finally have "\<not> 2 ^ 1024 \<le> ?m * 2 ^ nat ?e" by simp
  then show ?thesis using assms(1,2) by (simp add: int_truediv_def Let_def)
qed

lemma math_ceil_nonpos_exp:
  assumes "e \<le> 0"
  shows "math_ceil (PyFloat m e) = - ((- m) div 2 ^ nat (- e))"
  using assms by (cases "e = 0") (simp_all add: math_ceil_def)

lemma ceil_div_unique:
  assumes "0 < s" "(k - 1) * s < m" "m \<le> k * s"
  shows "- ((- m) div s) = (k::int)"
proof -
  have "(- m) div s = - k"
  proof (rule int_div_pos_eq [where r = "k * s - m"])
    show "- m = s * - k + (k * s - m)" by simp
    show "0 \<le> k * s - m" using assms(3) by simp
    show "k * s - m < s" using assms(2) by (simp add: algebra_simps)
  qed
  then show ?thesis by simp
qed

lemma ceil_div_bounds:
  assumes "0 < (b::int)"
  shows "a \<le> (- ((- a) div b)) * b" and "(- ((- a) div b) - 1) * b < a"
proof -
  define q r where "q = (- a) div b" and "r = (- a) mod b"
  have eq: "q * b + r = - a" by (simp add: q_def r_def)
  have r: "0 \<le> r" "r < b" using assms by (simp_all add: r_def)
  have "a = - q * b - r" using eq by simp
  with r(1) show "a \<le> (- ((- a) div b)) * b" unfolding q_def [symmetric] by simp
  have "(- q - 1) * b = - q * b - b" by (simp add: algebra_simps)
  with \<open>a = - q * b - r\<close> r(2) show "(- ((- a) div b) - 1) * b < a"
    unfolding q_def [symmetric] by simp
qed

lemma int_truediv_ceil_exact:
  assumes a: "0 < a" "a < 2 ^ 53" and b: "0 < b" "b < 2 ^ 1075"
  shows "\<exists>f. int_truediv a b = Inr f \<and> math_ceil f = - ((- a) div b)"
proof -
  let ?e = "float_exp a b"
  let ?s = "(2::int) ^ nat (- ?e)"
  let ?m = "round_half_even (a * ?s) (b * 2 ^ nat ?e)"
  let ?k = "- ((- a) div b)"
  have "a < 2 ^ 53 * b"
  proof -
    have "a * 1 \<le> a * b" using a(1) b(1) by (intro mult_left_mono) simp_all
    moreover have "a * b < 2 ^ 53 * b" using a(2) b(1) by (intro mult_strict_right_mono)
    ultimately show ?thesis by simp
  qed
  then have fl: "floor_log2_ratio a b < 53"
    using floor_log2_ratio_less [OF a(1) b(1), of 53] by simp
  then have e0: "?e \<le> 0" by (simp add: float_exp_def)
  then have t1: "(2::int) ^ nat ?e = 1" by simp
  have s0: "0 < ?s" by simp
  have "a < 2 ^ 1023 * b"
  proof -
    have "(2::int) ^ 53 * b \<le> 2 ^ 1023 * b" using b(1) by (intro mult_right_mono) simp_all
    with \<open>a < 2 ^ 53 * b\<close> show ?thesis by simp
  qed
  then have res: "int_truediv a b = Inr (PyFloat ?m ?e)"
    using int_truediv_finite [of a b] a(1) b(1) by simp
  \<comment> \<open>the divisor is below twice the scale\<close>
  have b2s: "b < 2 * ?s"
  proof -
    have "real_of_int b * 2 powi (floor_log2_ratio a b) \<le> real_of_int a"
      using floor_log2_ratio_lower [OF a(1) b(1)] b(1) by (simp add: pos_le_divide_eq mult.commute)
    also have "\<dots> < 2 powi 53" using a(2) of_int_less_iff [of a "2 ^ 53", where ?'a = real] by simp
    finally have "real_of_int b * 2 powi (floor_log2_ratio a b) * 2 powi (- floor_log2_ratio a b)
                    < 2 powi 53 * 2 powi (- floor_log2_ratio a b)"
      by (intro mult_strict_right_mono) simp_all
    then have h1: "real_of_int b < 2 powi (53 - floor_log2_ratio a b)"
      by (simp add: power_int_minus power_int_diff field_simps)
    have h2: "real_of_int b < 2 powi 1075"
      using b(2) of_int_less_iff [of b "2 ^ 1075", where ?'a = real] by simp
    have "1 - ?e = 53 - floor_log2_ratio a b \<or> 1 - ?e = 1075"
      unfolding float_exp_def by linarith
    then consider (normal) "1 - ?e = 53 - floor_log2_ratio a b" | (subnormal) "1 - ?e = 1075"
      by blast
    then have "real_of_int b < 2 powi (1 - ?e)"
    proof cases
      case normal
      with h1 show ?thesis by (simp only:)
    next
      case subnormal
      with h2 show ?thesis by (simp only:)
    qed
    also have "\<dots> = real_of_int (2 * ?s)"
    proof -
      have "nat (1 - ?e) = Suc (nat (- ?e))" using e0 by linarith
      then show ?thesis using e0 by (simp add: power_int_def)
    qed
    finally show ?thesis by (simp only: of_int_less_iff)
  qed
  have up: "?m \<le> ?k * ?s"
  proof -
    have "a * ?s \<le> (?k * b) * ?s" using ceil_div_bounds(1) [OF b(1), of a] by (intro mult_right_mono) simp_all
    then have "a * ?s \<le> (?k * ?s) * b" by (simp add: mult_ac)
    from round_half_even_le [OF b(1) this] show ?thesis by (simp add: t1)
  qed
  have lo: "(?k - 1) * ?s < ?m"
  proof -
    define j where "j = ?k - 1"
    define s where "s = ?s"
    have s: "0 < s" "b < 2 * s" using b2s by (simp_all add: s_def)
    have a': "j * b + 1 \<le> a" using ceil_div_bounds(2) [OF b(1), of a] by (simp add: j_def)
    have "(2 * (j * s) + 1) * b = 2 * s * (j * b) + b" by (simp add: algebra_simps)
    also have "\<dots> < 2 * s * (j * b) + 2 * s" using s(2) by simp
    also have "\<dots> = (j * b + 1) * (2 * s)" by (simp add: algebra_simps)
    also have "\<dots> \<le> a * (2 * s)" using a' s(1) by (intro mult_right_mono) simp_all
    also have "\<dots> = 2 * (a * s)" by simp
    finally have "(2 * (j * s) + 1) * b < 2 * (a * s)" .
    from round_half_even_greater [OF b(1) this] show ?thesis by (simp add: t1 j_def s_def)
  qed
  have "math_ceil (PyFloat ?m ?e) = - ((- ?m) div ?s)" by (rule math_ceil_nonpos_exp [OF e0])
  also have "\<dots> = ?k" by (rule ceil_div_unique [OF s0 lo up])
  finally show ?thesis using res by simp
qed

section \<open>Facts about \<open>TableRow\<close>\<close>

lemma str_int_digits:
  "str_int 1 = ''1''" "str_int 2 = ''2''" "str_int 3 = ''3''"
  by code_simp+

lemma TableRow_init_exact:
  assumes "0 \<le> len" "len < 2 ^ 53" "0 < nc" "nc < 2 ^ 1075"
  shows "TableRow_init nm len nc =
           Inr \<lparr> name = nm, length_tr = len, ncols = nc, item = None,
                 first = False, last_tr = False,
                 index = 0, index0 = - 1, rindex = len + 1, rindex0 = len,
                 col = 0, col0 = - 1, col_first = True, col_last = False,
                 keys_tr = TableRow_keys, row = 0, nrows = - ((- len) div nc) \<rparr>"
proof (cases "len = 0")
  case True
  then show ?thesis using assms(3) by (simp add: TableRow_init_def int_truediv_def math_ceil_def)
next
  case False
  with assms(1) have "0 < len" by simp
  from int_truediv_ceil_exact [OF this assms(2,3,4)]
  obtain f where "int_truediv len nc = Inr f" "math_ceil f = - ((- len) div nc)" by blast
  then show ?thesis by (simp add: TableRow_init_def)
qed

lemma TableRow_init_fields:
  assumes "TableRow_init nm len nc = Inr t"
  shows "name t = nm" "length_tr t = len" "ncols t = nc" "item t = None"
    "index t = 0" "index0 t = - 1" "rindex t = len + 1" "rindex0 t = len"
    "keys_tr t = TableRow_keys" "row t = 0"
  using assms by (auto simp: TableRow_init_def split: sum.splits)

lemma TableRow_step_ok:
  assumes "ncols tr \<noteq> 0"
  shows "snd (TableRow_step tr x) = None"
    and "ncols (fst (TableRow_step tr x)) = ncols tr"
    and "index (fst (TableRow_step tr x)) = index tr + 1"
    and "index0 (fst (TableRow_step tr x)) = index0 tr + 1"
    and "rindex (fst (TableRow_step tr x)) = rindex tr - 1"
    and "rindex0 (fst (TableRow_step tr x)) = rindex0 tr - 1"
    and "last_tr (fst (TableRow_step tr x)) = (rindex0 tr - 1 = 0)"
  using assms by (simp_all add: TableRow_step_def Let_def)

lemma TableRow_steps_snoc:
  "TableRow_steps tr (xs @ [x]) =
     (case TableRow_steps tr xs of
        (t, None) \<Rightarrow> TableRow_step t x
      | (t, Some err) \<Rightarrow> (t, Some err))"
proof (induction xs arbitrary: tr)
  case Nil
  show ?case by (cases "TableRow_step tr x") (auto split: option.splits)
next
  case (Cons y ys)
  show ?case by (cases "TableRow_step tr y") (auto simp: Cons.IH split: option.splits)
qed

lemma TableRow_steps_ok:
  assumes "ncols tr \<noteq> 0"
  shows "snd (TableRow_steps tr xs) = None"
    and "ncols (fst (TableRow_steps tr xs)) = ncols tr"
    and "index (fst (TableRow_steps tr xs)) = index tr + int (length xs)"
    and "index0 (fst (TableRow_steps tr xs)) = index0 tr + int (length xs)"
    and "rindex (fst (TableRow_steps tr xs)) = rindex tr - int (length xs)"
    and "rindex0 (fst (TableRow_steps tr xs)) = rindex0 tr - int (length xs)"
proof -
  have "snd (TableRow_steps tr xs) = None
      \<and> ncols (fst (TableRow_steps tr xs)) = ncols tr
      \<and> index (fst (TableRow_steps tr xs)) = index tr + int (length xs)
      \<and> index0 (fst (TableRow_steps tr xs)) = index0 tr + int (length xs)
      \<and> rindex (fst (TableRow_steps tr xs)) = rindex tr - int (length xs)
      \<and> rindex0 (fst (TableRow_steps tr xs)) = rindex0 tr - int (length xs)"
    using assms
  proof (induction xs arbitrary: tr)
    case Nil
    show ?case by simp
  next
    case (Cons y ys)
    obtain t1 where s: "TableRow_step tr y = (t1, None)"
      using TableRow_step_ok(1) [OF Cons.prems, of y] by (cases "TableRow_step tr y") auto
    have t1: "ncols t1 = ncols tr" "index t1 = index tr + 1" "index0 t1 = index0 tr + 1"
      "rindex t1 = rindex tr - 1" "rindex0 t1 = rindex0 tr - 1"
      using TableRow_step_ok(2-6) [OF Cons.prems, of y] s by simp_all
    from Cons.IH [of t1] Cons.prems t1 s show ?case by simp
  qed
  then show "snd (TableRow_steps tr xs) = None"
    and "ncols (fst (TableRow_steps tr xs)) = ncols tr"
    and "index (fst (TableRow_steps tr xs)) = index tr + int (length xs)"
    and "index0 (fst (TableRow_steps tr xs)) = index0 tr + int (length xs)"
    and "rindex (fst (TableRow_steps tr xs)) = rindex tr - int (length xs)"
    and "rindex0 (fst (TableRow_steps tr xs)) = rindex0 tr - int (length xs)"
    by simp_all
qed

lemma TableRow_steps_last:
  assumes "ncols tr \<noteq> 0" "xs \<noteq> []"
  shows "last_tr (fst (TableRow_steps tr xs)) = (rindex0 tr - int (length xs) = 0)"
proof -
  from assms(2) obtain ys y where xs: "xs = ys @ [y]" by (cases xs rule: rev_cases) auto
  obtain t1 where s: "TableRow_steps tr ys = (t1, None)"
    using TableRow_steps_ok(1) [OF assms(1), of ys] by (cases "TableRow_steps tr ys") auto
  have t1: "ncols t1 \<noteq> 0" "rindex0 t1 = rindex0 tr - int (length ys)"
    using TableRow_steps_ok(2,6) [OF assms(1), of ys] s assms(1) by simp_all
  show ?thesis
    using TableRow_step_ok(7) [OF t1(1), of y] t1(2) by (auto simp add: xs TableRow_steps_snoc s)
qed

lemma TableRow_step_keys: "keys_tr (fst (TableRow_step tr x)) = keys_tr tr"
  by (simp add: TableRow_step_def Let_def)

lemma TableRow_steps_keys: "keys_tr (fst (TableRow_steps tr xs)) = keys_tr tr"
proof (induction xs arbitrary: tr)
  case Nil
  show ?case by simp
next
  case (Cons y ys)
  show ?case using Cons.IH [of "fst (TableRow_step tr y)"] TableRow_step_keys [of tr y]
    by (cases "TableRow_step tr y") (auto split: option.splits)
qed

lemma row_open_1: \<open>row_open 1 = ''<tr class="row1">''\<close>
  by (simp add: row_open_def str_int_digits)

lemma TableRow_init_succeeds:
  assumes "nc \<noteq> 0" "\<bar>len\<bar> < 2 ^ 1023 * \<bar>nc\<bar>"
  shows "\<exists>t :: 'a TableRow. TableRow_init nm len nc = Inr t"
proof (cases "len = 0")
  case True
  then show ?thesis using assms(1) by (simp add: TableRow_init_def int_truediv_def)
next
  case False
  from int_truediv_finite [OF False assms] show ?thesis by (simp add: TableRow_init_def)
qed

lemma TableRow_step_nrows: "nrows (fst (TableRow_step tr x)) = nrows tr"
  by (simp add: TableRow_step_def Let_def)

lemma TableRow_steps_nrows: "nrows (fst (TableRow_steps tr xs)) = nrows tr"
proof (induction xs arbitrary: tr)
  case Nil
  show ?case by simp
next
  case (Cons y ys)
  show ?case using Cons.IH [of "fst (TableRow_step tr y)"] TableRow_step_nrows [of tr y]
    by (cases "TableRow_step tr y") (auto split: option.splits)
qed

lemma render_cells_ok:
  assumes "\<forall>d. snd (block d) = None" "ncols (tablerow d) \<noteq> 0"
  shows "render_cells block d j xs buffer =
           ((stepped d xs,
             buffer @ concat (map (\<lambda>k. col_open (int (j + k) + 1)
                                        @ fst (block (stepped d (take (k + 1) xs))) @ ''</td>'')
                                  [0..<length xs])),
            None)"
  using assms(2)
proof (induction xs arbitrary: d j buffer)
  case Nil
  show ?case by (simp add: stepped_def)
next
  case (Cons x xs)
  obtain t1 where s: "TableRow_step (tablerow d) x = (t1, None)"
    using TableRow_step_ok(1) [OF Cons.prems, of x] by (cases "TableRow_step (tablerow d) x") auto
  let ?d1 = "d\<lparr> tablerow := t1 \<rparr>"
  have n1: "ncols (tablerow ?d1) \<noteq> 0"
    using TableRow_step_ok(2) [OF Cons.prems, of x] Cons.prems s by simp
  obtain out where b: "block ?d1 = (out, None)"
    using assms(1) [rule_format, of ?d1] by (cases "block ?d1") auto
  have st: "stepped d (x # ys) = stepped ?d1 ys" for ys
    by (simp add: stepped_def s)
  have "render_cells block d j (x # xs) buffer
          = render_cells block ?d1 (j + 1) xs (buffer @ col_open (int j + 1) @ out @ ''</td>'')"
    by (simp add: TableRowDrop_step_def s b)
  also note Cons.IH [OF n1]
  finally show ?case
    using b by (simp add: map_upt_Suc st del: upt_Suc) (simp add: stepped_def)
qed

section \<open>The claims\<close>

text \<open>
  C2. For a \<open>TableRow\<close> with a positive column count, one call of \<open>step\<close> raises nothing,
  sets \<open>item\<close>, adds one to \<open>index\<close> and \<open>index0\<close>, takes one from \<open>rindex\<close> and
  \<open>rindex0\<close>, makes \<open>first\<close> and \<open>last\<close> say whether the new \<open>index0\<close> and \<open>rindex0\<close>
  are zero, sets \<open>col0\<close> to \<open>index0 mod ncols\<close> and \<open>col\<close> to \<open>col0 + 1\<close>, makes
  \<open>col_first\<close> and \<open>col_last\<close> say whether \<open>col\<close> is \<open>1\<close> and \<open>ncols\<close>, adds one to
  \<open>row\<close> exactly when \<open>col\<close> is \<open>1\<close>, and leaves every other slot as it was.
\<close>

theorem TableRow_step_fields:
  assumes "0 < ncols tr"
  shows "\<exists>tr'. TableRow_step tr x = (tr', None)
           \<and> item tr' = Some x
           \<and> index tr' = index tr + 1 \<and> index0 tr' = index0 tr + 1
           \<and> rindex tr' = rindex tr - 1 \<and> rindex0 tr' = rindex0 tr - 1
           \<and> first tr' = (index0 tr' = 0) \<and> last_tr tr' = (rindex0 tr' = 0)
           \<and> col0 tr' = index0 tr' mod ncols tr \<and> col tr' = col0 tr' + 1
           \<and> col_first tr' = (col tr' = 1) \<and> col_last tr' = (col tr' = ncols tr)
           \<and> row tr' = (if col tr' = 1 then row tr + 1 else row tr)
           \<and> name tr' = name tr \<and> length_tr tr' = length_tr tr \<and> ncols tr' = ncols tr
           \<and> keys_tr tr' = keys_tr tr \<and> nrows tr' = nrows tr"
  using assms by (simp add: TableRow_step_def Let_def)

theorem TableRow_step_fields_witness:
  "0 < ncols (projr (TableRow_init ''i'' 5 3 :: py_error + nat TableRow))
   \<and> (\<exists>tr'. TableRow_step (projr (TableRow_init ''i'' 5 3)) (7::nat) = (tr', None)
          \<and> item tr' = Some 7 \<and> index tr' = 1 \<and> index0 tr' = 0 \<and> rindex tr' = 5 \<and> rindex0 tr' = 4
          \<and> first tr' \<and> \<not> last_tr tr' \<and> col0 tr' = 0 \<and> col tr' = 1 \<and> col_first tr' \<and> \<not> col_last tr'
          \<and> row tr' = 1 \<and> nrows tr' = 2)"
proof -
  let ?t = "projr (TableRow_init ''i'' 5 3 :: py_error + nat TableRow)"
  have h: "0 < ncols ?t" by (simp add: TableRow_init_exact)
  from TableRow_step_fields [OF h, of 7] show ?thesis
    by (auto simp add: TableRow_init_exact)
qed

text \<open>
  C5. After any positive number of steps on a \<open>TableRow\<close> constructed with a positive column
  count, no step has raised, \<open>col\<close> lies between \<open>1\<close> and the column count, \<open>col_first\<close>
  holds exactly when \<open>col\<close> is \<open>1\<close>, and \<open>col_last\<close> exactly when \<open>col\<close> is the
  column count.
\<close>

theorem column_invariant:
  assumes "0 < nc" "TableRow_init nm len nc = Inr t0" "xs \<noteq> []"
  shows "\<exists>t. TableRow_steps t0 xs = (t, None) \<and> ncols t = nc
           \<and> 1 \<le> col t \<and> col t \<le> nc
           \<and> (col_first t \<longleftrightarrow> col t = 1) \<and> (col_last t \<longleftrightarrow> col t = nc)"
proof -
  from assms(3) obtain ys y where xs: "xs = ys @ [y]" by (cases xs rule: rev_cases) auto
  have n0: "ncols t0 \<noteq> 0" using TableRow_init_fields(3) [OF assms(2)] assms(1) by simp
  obtain t1 where s: "TableRow_steps t0 ys = (t1, None)"
    using TableRow_steps_ok(1) [OF n0, of ys] by (cases "TableRow_steps t0 ys") auto
  have t1: "ncols t1 = nc"
    using TableRow_steps_ok(2) [OF n0, of ys] s TableRow_init_fields(3) [OF assms(2)] by simp
  have "(index0 t1 + 1) mod nc < nc" using assms(1) by simp
  then have m: "(index0 t1 + 1) mod nc + 1 \<le> nc" by linarith
  show ?thesis using m t1 assms(1)
    by (auto simp add: xs TableRow_steps_snoc s TableRow_step_def Let_def)
qed

theorem column_invariant_witness:
  "(0::int) < 3 \<and> [7, 8, 9, 10::nat] \<noteq> []
   \<and> (\<exists>t. TableRow_steps (projr (TableRow_init ''i'' 5 3)) [7, 8, 9, 10::nat] = (t, None)
          \<and> col t = 1 \<and> col_first t \<and> \<not> col_last t)"
proof -
  have i: "TableRow_init ''i'' 5 3 = Inr (projr (TableRow_init ''i'' 5 3 :: py_error + nat TableRow))"
    by (simp add: TableRow_init_exact)
  have h: "(0::int) < 3" "[7, 8, 9, 10::nat] \<noteq> []" by simp_all
  from column_invariant [OF h(1) i h(2)] show ?thesis
    by (auto simp add: TableRow_init_exact TableRow_step_def Let_def)
qed

text \<open>
  C3. For a drop whose \<open>TableRow\<close> has a positive column count, \<open>step_write\<close> raises
  nothing and does, in this order: it writes the pending closing markup, if there is any, and
  takes it off the list; it steps the \<open>TableRow\<close>; exactly when \<open>col\<close> is \<open>1\<close> and \<open>row\<close> is
  at most \<open>nrows\<close> it writes the opening row tag, whose class is \<open>row\<close> followed by the row
  number in decimal; it writes the opening cell tag, whose class is \<open>col\<close> followed by the
  column number in decimal; it appends \<open></td></tr>\<close> to the pending list when \<open>col\<close> is the
  column count or \<open>index\<close> is the length, and \<open></td>\<close> otherwise. The witness writes five
  items in three columns, one call after the other.
\<close>

theorem step_write_spec:
  assumes "0 < ncols (tablerow d)"
  shows \<open>\<exists>tr'. TableRow_step (tablerow d) x = (tr', None)
           \<and> step_write d x buffer =
               ((\<lparr> tablerow = tr', name_drop = name_drop d,
                    exit_drop = butlast (exit_drop d) @
                      [if col tr' = ncols tr' \<or> index tr' = length_tr tr'
                       then ''</td></tr>'' else ''</td>''] \<rparr>,
                 buffer @ (if exit_drop d = [] then [] else last (exit_drop d))
                        @ (if col tr' = 1 \<and> row tr' \<le> nrows tr'
                           then ''<tr class="row'' @ str_int (row tr') @ ''">'' else [])
                        @ ''<td class="col'' @ str_int (col tr') @ ''">''),
                None)\<close>
proof -
  from TableRow_step_ok(1) [of "tablerow d" x] assms
  obtain tr' where s: "TableRow_step (tablerow d) x = (tr', None)"
    by (cases "TableRow_step (tablerow d) x") auto
  then show ?thesis
    by (cases "exit_drop d = []")
       (simp_all add: step_write_def empty_exit_buffer_def TableRowDrop_step_def Let_def
          row_open_def col_open_def)
qed

theorem step_write_spec_witness:
  \<open>let d0 = projr (TableRowDrop_init ''i'' 5 3 :: py_error + nat TableRowDrop);
       r1 = step_write d0 10 ''x'';
       r2 = step_write (fst (fst r1)) 20 (snd (fst r1));
       r3 = step_write (fst (fst r2)) 30 (snd (fst r2));
       r4 = step_write (fst (fst r3)) 40 (snd (fst r3));
       r5 = step_write (fst (fst r4)) 50 (snd (fst r4))
   in 0 < ncols (tablerow (fst (fst r3)))
      \<and> snd r1 = None \<and> snd r2 = None \<and> snd r3 = None \<and> snd r4 = None \<and> snd r5 = None
      \<and> snd (fst r1) = ''x<tr class="row1"><td class="col1">''
      \<and> exit_drop (fst (fst r1)) = [''</td>'']
      \<and> snd (fst r2) = ''x<tr class="row1"><td class="col1"></td><td class="col2">''
      \<and> exit_drop (fst (fst r2)) = [''</td>'']
      \<and> snd (fst r3) = ''x<tr class="row1"><td class="col1"></td><td class="col2"></td><td class="col3">''
      \<and> exit_drop (fst (fst r3)) = [''</td></tr>'']
      \<and> snd (fst r4) = ''x<tr class="row1"><td class="col1"></td><td class="col2"></td><td class="col3"></td></tr><tr class="row2"><td class="col1">''
      \<and> exit_drop (fst (fst r4)) = [''</td>'']
      \<and> snd (fst r5) = ''x<tr class="row1"><td class="col1"></td><td class="col2"></td><td class="col3"></td></tr><tr class="row2"><td class="col1"></td><td class="col2">''
      \<and> exit_drop (fst (fst r5)) = [''</td></tr>'']\<close>
proof -
  note e = step_write_def empty_exit_buffer_def TableRowDrop_step_def TableRow_step_def Let_def
    row_open_def col_open_def str_int_digits
  have d0: \<open>projr (TableRowDrop_init ''i'' 5 3 :: py_error + nat TableRowDrop) = \<lparr> tablerow = \<lparr> name = ''i'', length_tr = 5, ncols = 3, item = None, first = False, last_tr = False, index = 0, index0 = -1, rindex = 6, rindex0 = 5, col = 0, col0 = - 1, col_first = True, col_last = False, keys_tr = TableRow_keys, row = 0, nrows = 2 \<rparr>, name_drop = ''i'', exit_drop = [] \<rparr>\<close>
    by (simp add: TableRowDrop_init_def TableRow_init_exact)
  have r1: \<open>step_write (\<lparr> tablerow = \<lparr> name = ''i'', length_tr = 5, ncols = 3, item = None, first = False, last_tr = False, index = 0, index0 = -1, rindex = 6, rindex0 = 5, col = 0, col0 = - 1, col_first = True, col_last = False, keys_tr = TableRow_keys, row = 0, nrows = 2 \<rparr>, name_drop = ''i'', exit_drop = [] \<rparr> :: nat TableRowDrop) 10 ''x''
      = ((\<lparr> tablerow = \<lparr> name = ''i'', length_tr = 5, ncols = 3, item = Some 10, first = True, last_tr = False, index = 1, index0 = 0, rindex = 5, rindex0 = 4, col = 1, col0 = 0, col_first = True, col_last = False, keys_tr = TableRow_keys, row = 1, nrows = 2 \<rparr>, name_drop = ''i'', exit_drop = [''</td>''] \<rparr>, ''x<tr class="row1"><td class="col1">''), None)\<close>
    by (simp add: e)
  have r2: \<open>step_write (\<lparr> tablerow = \<lparr> name = ''i'', length_tr = 5, ncols = 3, item = Some 10, first = True, last_tr = False, index = 1, index0 = 0, rindex = 5, rindex0 = 4, col = 1, col0 = 0, col_first = True, col_last = False, keys_tr = TableRow_keys, row = 1, nrows = 2 \<rparr>, name_drop = ''i'', exit_drop = [''</td>''] \<rparr> :: nat TableRowDrop) 20 ''x<tr class="row1"><td class="col1">''
      = ((\<lparr> tablerow = \<lparr> name = ''i'', length_tr = 5, ncols = 3, item = Some 20, first = False, last_tr = False, index = 2, index0 = 1, rindex = 4, rindex0 = 3, col = 2, col0 = 1, col_first = False, col_last = False, keys_tr = TableRow_keys, row = 1, nrows = 2 \<rparr>, name_drop = ''i'', exit_drop = [''</td>''] \<rparr>, ''x<tr class="row1"><td class="col1"></td><td class="col2">''), None)\<close>
    by (simp add: e)
  have r3: \<open>step_write (\<lparr> tablerow = \<lparr> name = ''i'', length_tr = 5, ncols = 3, item = Some 20, first = False, last_tr = False, index = 2, index0 = 1, rindex = 4, rindex0 = 3, col = 2, col0 = 1, col_first = False, col_last = False, keys_tr = TableRow_keys, row = 1, nrows = 2 \<rparr>, name_drop = ''i'', exit_drop = [''</td>''] \<rparr> :: nat TableRowDrop) 30 ''x<tr class="row1"><td class="col1"></td><td class="col2">''
      = ((\<lparr> tablerow = \<lparr> name = ''i'', length_tr = 5, ncols = 3, item = Some 30, first = False, last_tr = False, index = 3, index0 = 2, rindex = 3, rindex0 = 2, col = 3, col0 = 2, col_first = False, col_last = True, keys_tr = TableRow_keys, row = 1, nrows = 2 \<rparr>, name_drop = ''i'', exit_drop = [''</td></tr>''] \<rparr>, ''x<tr class="row1"><td class="col1"></td><td class="col2"></td><td class="col3">''), None)\<close>
    by (simp add: e)
  have r4: \<open>step_write (\<lparr> tablerow = \<lparr> name = ''i'', length_tr = 5, ncols = 3, item = Some 30, first = False, last_tr = False, index = 3, index0 = 2, rindex = 3, rindex0 = 2, col = 3, col0 = 2, col_first = False, col_last = True, keys_tr = TableRow_keys, row = 1, nrows = 2 \<rparr>, name_drop = ''i'', exit_drop = [''</td></tr>''] \<rparr> :: nat TableRowDrop) 40 ''x<tr class="row1"><td class="col1"></td><td class="col2"></td><td class="col3">''
      = ((\<lparr> tablerow = \<lparr> name = ''i'', length_tr = 5, ncols = 3, item = Some 40, first = False, last_tr = False, index = 4, index0 = 3, rindex = 2, rindex0 = 1, col = 1, col0 = 0, col_first = True, col_last = False, keys_tr = TableRow_keys, row = 2, nrows = 2 \<rparr>, name_drop = ''i'', exit_drop = [''</td>''] \<rparr>, ''x<tr class="row1"><td class="col1"></td><td class="col2"></td><td class="col3"></td></tr><tr class="row2"><td class="col1">''), None)\<close>
  proof -
    have h: \<open>0 < ncols (tablerow (\<lparr> tablerow = \<lparr> name = ''i'', length_tr = 5, ncols = 3, item = Some 30, first = False, last_tr = False, index = 3, index0 = 2, rindex = 3, rindex0 = 2, col = 3, col0 = 2, col_first = False, col_last = True, keys_tr = TableRow_keys, row = 1, nrows = 2 \<rparr>, name_drop = ''i'', exit_drop = [''</td></tr>''] \<rparr> :: nat TableRowDrop))\<close> by simp
    from step_write_spec [OF h, of 40 \<open>''x<tr class="row1"><td class="col1"></td><td class="col2"></td><td class="col3">''\<close>] show ?thesis
      by (simp add: TableRow_step_def Let_def str_int_digits)
  qed
  have r5: \<open>step_write (\<lparr> tablerow = \<lparr> name = ''i'', length_tr = 5, ncols = 3, item = Some 40, first = False, last_tr = False, index = 4, index0 = 3, rindex = 2, rindex0 = 1, col = 1, col0 = 0, col_first = True, col_last = False, keys_tr = TableRow_keys, row = 2, nrows = 2 \<rparr>, name_drop = ''i'', exit_drop = [''</td>''] \<rparr> :: nat TableRowDrop) 50 ''x<tr class="row1"><td class="col1"></td><td class="col2"></td><td class="col3"></td></tr><tr class="row2"><td class="col1">''
      = ((\<lparr> tablerow = \<lparr> name = ''i'', length_tr = 5, ncols = 3, item = Some 50, first = False, last_tr = True, index = 5, index0 = 4, rindex = 1, rindex0 = 0, col = 2, col0 = 1, col_first = False, col_last = False, keys_tr = TableRow_keys, row = 2, nrows = 2 \<rparr>, name_drop = ''i'', exit_drop = [''</td></tr>''] \<rparr>, ''x<tr class="row1"><td class="col1"></td><td class="col2"></td><td class="col3"></td></tr><tr class="row2"><td class="col1"></td><td class="col2">''), None)\<close>
    by (simp add: e)
  show ?thesis
    by (simp add: Let_def d0 r1 r2 r3 r4 r5)
qed

text \<open>
  C9, as the code has it. On a \<open>TableRow\<close> that was constructed and stepped any number of
  times, lookup of one of the eleven names gives the value of that slot, and lookup of any
  other key raises \<open>KeyError\<close> with the key. On a drop, lookup of \<open>tablerowloop\<close> gives the
  \<open>TableRow\<close>, also when the loop variable has that very name; lookup of the loop variable's
  name, when it is another one, gives the current item; any other key raises \<open>KeyError\<close>.
\<close>

theorem getitem_spec:
  assumes "TableRow_init nm len nc = Inr t0" and "t = fst (TableRow_steps t0 xs)"
  shows "TableRow_getitem t key =
           (if key = ''length'' then Inr (IntV (length_tr t))
            else if key = ''index'' then Inr (IntV (index t))
            else if key = ''index0'' then Inr (IntV (index0 t))
            else if key = ''rindex'' then Inr (IntV (rindex t))
            else if key = ''rindex0'' then Inr (IntV (rindex0 t))
            else if key = ''first'' then Inr (BoolV (first t))
            else if key = ''last'' then Inr (BoolV (last_tr t))
            else if key = ''col'' then Inr (IntV (col t))
            else if key = ''col0'' then Inr (IntV (col0 t))
            else if key = ''col_first'' then Inr (BoolV (col_first t))
            else if key = ''col_last'' then Inr (BoolV (col_last t))
            else Inl (KeyError key))
       \<and> TableRowDrop_getitem d key =
           (if key = ''tablerowloop'' then Inr (TableRowV (tablerow d))
            else if key = name_drop d then Inr (ItemValue (item (tablerow d)))
            else Inl (KeyError key))"
proof -
  have k: "keys_tr t = TableRow_keys"
    using assms TableRow_steps_keys [of t0 xs] TableRow_init_fields(9) [OF assms(1)] by simp
  show ?thesis
    by (simp add: TableRow_getitem_def k TableRow_keys_def TableRow_getattr_def TableRowDrop_getitem_def)
qed

theorem getitem_spec_witness:
  "TableRow_init ''i'' 5 3 = Inr (projr (TableRow_init ''i'' 5 3 :: py_error + nat TableRow))
   \<and> TableRow_getitem (fst (TableRow_steps (projr (TableRow_init ''i'' 5 3)) [7::nat])) ''col'' = Inr (IntV 1)
   \<and> TableRow_getitem (fst (TableRow_steps (projr (TableRow_init ''i'' 5 3)) [7::nat])) ''row'' = Inl (KeyError ''row'')
   \<and> TableRowDrop_getitem (projr (TableRowDrop_init ''i'' 5 3 :: py_error + nat TableRowDrop)) ''j'' = Inl (KeyError ''j'')"
proof -
  let ?t0 = "projr (TableRow_init ''i'' 5 3 :: py_error + nat TableRow)"
  have i: "TableRow_init ''i'' 5 3 = Inr ?t0" by (simp add: TableRow_init_exact)
  have t: "fst (TableRow_steps ?t0 [7::nat]) = fst (TableRow_steps ?t0 [7])" by simp
  from getitem_spec [OF i t, of "''col''"] getitem_spec [OF i t, of "''row''"]
       getitem_spec [OF i t, of "''j''" "projr (TableRowDrop_init ''i'' 5 3)"]
  show ?thesis
    by (auto simp add: TableRow_init_exact TableRowDrop_init_def TableRow_step_def Let_def)
qed

text \<open>
  C9 as stated fails for a loop variable called \<open>tablerowloop\<close>: lookup of the loop variable's
  name gives the \<open>TableRow\<close>, not the current item.
\<close>

theorem getitem_loop_name_counterexample:
  "name_drop (projr (TableRowDrop_init ''tablerowloop'' 1 1 :: py_error + nat TableRowDrop)) = ''tablerowloop''
   \<and> TableRowDrop_getitem (projr (TableRowDrop_init ''tablerowloop'' 1 1 :: py_error + nat TableRowDrop))
         ''tablerowloop''
       \<noteq> Inr (ItemValue (item (tablerow (projr (TableRowDrop_init ''tablerowloop'' 1 1)))))"
  by (simp add: TableRowDrop_init_def TableRow_init_exact TableRowDrop_getitem_def)

text \<open>
  C10. With an empty sequence and no column count, \<open>render_to_output\<close> raises nothing and
  writes one opening row tag for row 1 followed at once by the closing row tag. The drop
  comes out of the loop as it was constructed, its \<open>index\<close> still \<open>0\<close>: no step was made.
\<close>

theorem render_empty_without_cols:
  \<open>render_to_output nm [] None block buffer = (buffer @ ''<tr class="row1"></tr>'', None)
   \<and> (\<exists>d. TableRowDrop_init nm (int (length ([] :: 'a list))) 1 = Inr d
          \<and> render_rows block d 0 [[] :: 'a list] buffer
              = ((d, buffer @ ''<tr class="row1"></tr>''), None)
          \<and> index (tablerow d) = 0)\<close>
  by (simp add: render_to_output_def TableRowDrop_init_def TableRow_init_exact row_open_1)

text \<open>
  C7. What the code does where the claim asks for a type error. When the column count
  evaluates to a value that is not an integer (a boolean counts as one), the
  \<open>assert isinstance(cols, int)\<close> fails: \<open>render_to_output\<close> ends with \<open>AssertionError\<close>,
  not with the \<open>LiquidTypeError\<close> of \<open>exceptions.py\<close>, which the tag never raises. The buffer
  is as it was: nothing has been written.
\<close>

theorem render_non_integer_cols:
  assumes "as_int v = None"
  shows "render_to_output nm loop_items (Some v) block buffer = (buffer, Some AssertionError)"
  using assms by (simp add: render_to_output_def)

theorem render_non_integer_cols_witness:
  "as_int (PyStr ''2'') = None
   \<and> render_to_output ''i'' [7, 8::nat] (Some (PyStr ''2'')) (\<lambda>d. (''x'', None)) ''out''
       = (''out'', Some AssertionError)
   \<and> snd (render_to_output ''i'' [7, 8::nat] (Some (PyStr ''2'')) (\<lambda>d. (''x'', None)) ''out'')
       \<noteq> Some LiquidTypeError"
proof -
  have h: "as_int (PyStr ''2'') = None" by simp
  from render_non_integer_cols
         [OF h, where nm = "''i''" and loop_items = "[7, 8::nat]"
            and block = "\<lambda>d. (''x'', None)" and buffer = "''out''"]
  show ?thesis using h by simp
qed

text \<open>
  C6, as the code has it. \<open>TableRow.__init__\<close> checks nothing: a column count of \<open>0\<close> raises
  \<open>ZeroDivisionError\<close>, whatever the length, and every other column count, the negative ones
  included, gives an object, provided the magnitude of the length is below \<open>2 ^ 1023\<close> times
  that of the column count, so that the quotient is in the range of a float.
\<close>

theorem TableRow_init_outcome:
  "(TableRow_init nm len 0 :: py_error + 'a TableRow) = Inl ZeroDivisionError
   \<and> (nc \<noteq> 0 \<and> \<bar>len\<bar> < 2 ^ 1023 * \<bar>nc\<bar> \<longrightarrow> (\<exists>t :: 'a TableRow. TableRow_init nm len nc = Inr t))"
proof -
  have "(TableRow_init nm len 0 :: py_error + 'a TableRow) = Inl ZeroDivisionError"
    by (simp add: TableRow_init_def int_truediv_def)
  moreover have "\<exists>t :: 'a TableRow. TableRow_init nm len nc = Inr t"
    if "nc \<noteq> 0" "\<bar>len\<bar> < 2 ^ 1023 * \<bar>nc\<bar>"
    using that by (rule TableRow_init_succeeds)
  ultimately show ?thesis by blast
qed

theorem TableRow_init_outcome_witness:
  "(- 1 :: int) \<noteq> 0 \<and> \<bar>3 :: int\<bar> < 2 ^ 1023 * \<bar>- 1 :: int\<bar>
   \<and> (TableRow_init ''i'' 3 0 :: py_error + nat TableRow) = Inl ZeroDivisionError
   \<and> (\<exists>t :: nat TableRow. TableRow_init ''i'' 3 (- 1) = Inr t)"
  using TableRow_init_outcome [of "''i''" 3 "- 1", where ?'a = nat] by simp

text \<open>
  C6 as stated fails: a column count of \<open>- 1\<close> is accepted, \<open>0\<close> raises
  \<open>ZeroDivisionError\<close>, and with a column count of \<open>1\<close> a length of \<open>2 ^ 1024\<close> raises
  \<open>OverflowError\<close>.
\<close>

theorem TableRow_init_counterexample:
  "\<not> isl (TableRow_init ''i'' 3 (- 1) :: py_error + nat TableRow)
   \<and> (TableRow_init ''i'' 3 0 :: py_error + nat TableRow) = Inl ZeroDivisionError
   \<and> (TableRow_init ''i'' (2 ^ 1024) 1 :: py_error + nat TableRow) = Inl OverflowError"
  by code_simp

text \<open>
  C4, as the code has it. For a length from \<open>0\<close> to below \<open>2 ^ 53\<close> and a column count from
  \<open>1\<close> to below \<open>2 ^ 1075\<close>, construction succeeds and \<open>nrows\<close> is the ceiling of
  \<open>length / ncols\<close>, before and after the steps. After as many steps as the length, none of
  which raises, \<open>index\<close> is the length, \<open>rindex\<close> is \<open>1\<close> and \<open>rindex0\<close> is \<open>0\<close>; \<open>last\<close> is
  true after the final step and false after every earlier one.
\<close>

theorem steps_through_sequence:
  assumes "0 \<le> len" "len < 2 ^ 53" "0 < nc" "nc < 2 ^ 1075" "int (length xs) = len"
  shows "\<exists>t0 t. TableRow_init nm len nc = Inr t0
           \<and> nrows t0 = \<lceil>real_of_int len / real_of_int nc\<rceil>
           \<and> TableRow_steps t0 xs = (t, None)
           \<and> nrows t = nrows t0
           \<and> index t = len \<and> rindex t = 1 \<and> rindex0 t = 0
           \<and> (\<forall>k. 0 < k \<and> k \<le> length xs \<longrightarrow>
                  (last_tr (fst (TableRow_steps t0 (take k xs))) \<longleftrightarrow> k = length xs))"
proof -
  define t0 :: "'a TableRow" where "t0 = projr (TableRow_init nm len nc)"
  have i: "TableRow_init nm len nc = Inr t0" and n: "nrows t0 = - ((- len) div nc)"
    by (simp_all add: t0_def TableRow_init_exact [OF assms(1-4)])
  have f: "ncols t0 \<noteq> 0" "index t0 = 0" "rindex t0 = len + 1" "rindex0 t0 = len"
    using TableRow_init_fields [OF i] assms(3) by simp_all
  obtain t where s: "TableRow_steps t0 xs = (t, None)"
    using TableRow_steps_ok(1) [OF f(1), of xs] by (cases "TableRow_steps t0 xs") auto
  have c: "nrows t0 = \<lceil>real_of_int len / real_of_int nc\<rceil>"
    by (simp add: n ceiling_divide_eq_div)
  have e: "index t = len" "rindex t = 1" "rindex0 t = 0"
    using TableRow_steps_ok(3,5,6) [OF f(1), of xs] s f(2-4) assms(5) by simp_all
  have r: "nrows t = nrows t0"
    using TableRow_steps_nrows [of t0 xs] s by simp
  have l: "last_tr (fst (TableRow_steps t0 (take k xs))) \<longleftrightarrow> k = length xs"
    if "0 < k" "k \<le> length xs" for k
  proof -
    from that have "take k xs \<noteq> []" by auto
    from TableRow_steps_last [OF f(1) this] that f(4) assms(5) show ?thesis by auto
  qed
  from i c s r e l show ?thesis by blast
qed


theorem steps_through_sequence_witness:
  "(0::int) \<le> 5 \<and> (5::int) < 2 ^ 53 \<and> (0::int) < 3 \<and> (3::int) < 2 ^ 1075
   \<and> int (length [1, 2, 3, 4, 5::nat]) = 5
   \<and> (\<exists>t0 t. TableRow_init ''i'' 5 3 = Inr t0 \<and> nrows t0 = 2
          \<and> TableRow_steps t0 [1, 2, 3, 4, 5::nat] = (t, None)
          \<and> index t = 5 \<and> index0 t = 4 \<and> rindex t = 1 \<and> rindex0 t = 0
          \<and> last_tr t \<and> col t = 2 \<and> \<not> col_last t)"
proof -
  have h: "(0::int) \<le> 5" "(5::int) < 2 ^ 53" "(0::int) < 3" "(3::int) < 2 ^ 1075"
    "int (length [1, 2, 3, 4, 5::nat]) = 5" by simp_all
  from steps_through_sequence [OF h, of "''i''"] show ?thesis
    by (auto simp add: TableRow_init_exact TableRow_step_def Let_def)
qed

text \<open>
  C4 as stated fails. After one step on a \<open>TableRow\<close> of length \<open>1\<close>, \<open>rindex\<close> is \<open>1\<close>, not
  \<open>0\<close>. For the length \<open>2 ^ 53 + 1\<close> and one column, \<open>nrows\<close> is \<open>2 ^ 53\<close>, one less than the
  ceiling of the quotient; for the length \<open>1\<close> and \<open>2 ^ 1075\<close> columns it is \<open>0\<close>, not \<open>1\<close>.
\<close>

theorem steps_through_sequence_counterexample:
  "rindex (fst (TableRow_steps (projr (TableRow_init ''i'' 1 1)) [7::nat])) = 1
   \<and> nrows (projr (TableRow_init ''i'' (2 ^ 53 + 1) 1 :: py_error + nat TableRow)) = 2 ^ 53
   \<and> \<lceil>real_of_int (2 ^ 53 + 1) / real_of_int 1\<rceil> = 2 ^ 53 + 1
   \<and> nrows (projr (TableRow_init ''i'' 1 (2 ^ 1075) :: py_error + nat TableRow)) = 0
   \<and> \<lceil>real_of_int 1 / real_of_int (2 ^ 1075)\<rceil> = 1"
proof -
  have a: "rindex (fst (TableRow_steps (projr (TableRow_init ''i'' 1 1)) [7::nat])) = 1"
    by (simp add: TableRow_init_exact TableRow_step_def Let_def)
  have b: "nrows (projr (TableRow_init ''i'' (2 ^ 53 + 1) 1 :: py_error + nat TableRow)) = 2 ^ 53"
    by code_simp
  have c: "nrows (projr (TableRow_init ''i'' 1 (2 ^ 1075) :: py_error + nat TableRow)) = 0"
    by code_simp
  have d: "\<lceil>real_of_int (2 ^ 53 + 1) / real_of_int 1\<rceil> = 2 ^ 53 + 1" by simp
  have e: "\<lceil>real_of_int 1 / real_of_int (2 ^ 1075)\<rceil> = 1"
    by (simp only: ceiling_divide_eq_div) simp
  from a b c d e show ?thesis by (simp only: simp_thms)
qed

text \<open>
  C8, as the code has it. Without a column count, when the block never raises and the
  sequence is no longer than \<open>sys.maxsize\<close>, \<open>render_to_output\<close> raises nothing and writes
  exactly one row: the opening tag of row \<open>1\<close>, then for the \<open>j\<close>-th item, counted from
  \<open>1\<close>, the opening tag of cell \<open>j\<close>, what the block writes for the drop stepped to that
  item, and the closing cell tag, and at the end one closing row tag. The group size \<open>1\<close> is
  that of the \<open>TableRow\<close> only.
\<close>

theorem render_without_cols:
  assumes "\<forall>d. snd (block d) = None" and "int (length loop_items) \<le> sys_maxsize"
  shows "\<exists>d0. TableRowDrop_init nm (int (length loop_items)) 1 = Inr d0
           \<and> ncols (tablerow d0) = 1
           \<and> render_to_output nm loop_items None block buffer =
               (buffer @ row_open 1
                  @ concat (map (\<lambda>j. col_open (int j + 1)
                                       @ fst (block (stepped d0 (take (j + 1) loop_items)))
                                       @ ''</td>'')
                                [0..<length loop_items])
                  @ ''</tr>'',
                None)"
proof -
  have "\<bar>int (length loop_items)\<bar> < 2 ^ 1023 * \<bar>1::int\<bar>"
    using assms(2) by (simp add: sys_maxsize_def)
  from TableRow_init_succeeds [OF _ this, of nm]
  obtain t0 :: "'a TableRow" where t0: "TableRow_init nm (int (length loop_items)) 1 = Inr t0"
    by auto
  let ?d0 = "\<lparr> tablerow = t0, name_drop = nm, exit_drop = [] \<rparr>"
  have d0: "TableRowDrop_init nm (int (length loop_items)) 1 = Inr ?d0"
    by (simp add: TableRowDrop_init_def t0)
  have n: "ncols (tablerow ?d0) = 1" using TableRow_init_fields(3) [OF t0] by simp
  then have n0: "ncols (tablerow ?d0) \<noteq> 0" by simp
  show ?thesis
    using n by (simp add: render_to_output_def d0 render_cells_ok [OF assms(1) n0])
qed

theorem render_without_cols_witness:
  \<open>(\<forall>d :: nat TableRowDrop. snd ((\<lambda>d. (''x'', None)) d) = None)
   \<and> int (length [7, 8::nat]) \<le> sys_maxsize
   \<and> render_to_output ''i'' [7, 8::nat] None (\<lambda>d. (''x'', None)) ''''
       = (''<tr class="row1"><td class="col1">x</td><td class="col2">x</td></tr>'', None)\<close>
proof -
  have h: "\<forall>d :: nat TableRowDrop. snd ((\<lambda>d. (''x'', None)) d) = None"
    "int (length [7, 8::nat]) \<le> sys_maxsize" by (simp_all add: sys_maxsize_def)
  from render_without_cols [OF h, of "''i''" "''''"] show ?thesis
    using h by (auto simp add: row_open_def col_open_def str_int_digits upt_rec [of 0] upt_rec [of 1])
qed

text \<open>
  C8 as stated fails: two items without a column count are rendered as one row of two cells,
  not as two rows.
\<close>

theorem render_without_cols_counterexample:
  \<open>render_to_output ''i'' [7, 8::nat] None (\<lambda>d. ('''', None)) ''''
     = (''<tr class="row1"><td class="col1"></td><td class="col2"></td></tr>'', None)\<close>
  by (simp add: render_to_output_def TableRowDrop_init_def TableRow_init_exact
        TableRowDrop_step_def TableRow_step_def Let_def row_open_def col_open_def str_int_digits)

end
